theory Spec2Isabelle
  imports Complex_Main "HOL-Library.Sublist"
begin

section \<open>Strings and numbers of the host language\<close>

text \<open>
  A string is a list of code units, and a \<open>char\<close> is a code unit below 256: the ASCII
  characters and the letters and signs from 128 to 255 (among them the accented Latin
  letters). Text with higher code units is not covered.

  \<open>toLowerCase\<close> turns \<open>A\<close> to \<open>Z\<close> and the capital letters 192 to 222 (all but the
  multiplication sign 215) into the letter 32 above.
\<close>

definition toLowerChar :: "char \<Rightarrow> char" where
  "toLowerChar c =
     (let n = (of_char c :: nat)
      in if (65 \<le> n \<and> n \<le> 90) \<or> (192 \<le> n \<and> n \<le> 222 \<and> n \<noteq> 215) then char_of (n + 32)
         else c)"

definition toLowerCase :: "string \<Rightarrow> string" where
  "toLowerCase s = map toLowerChar s"

text \<open>
  \<open>toUpperCase\<close> turns \<open>a\<close> to \<open>z\<close> and the small letters 224 to 254 (all but the division
  sign 247) into the letter 32 below, and the sharp s (223) into the two letters \<open>SS\<close>. The
  capitals of the micro sign (181) and of y with diaeresis (255) are code units above 255:
  on these two \<open>toUpperChar\<close> does not give the host's result, \<open>capitalInRange\<close> tells
  them apart, and what is stated about capitals is stated for the other characters.
\<close>

definition capitalInRange :: "char \<Rightarrow> bool" where
  "capitalInRange c = ((of_char c :: nat) \<noteq> 181 \<and> (of_char c :: nat) \<noteq> 255)"

definition toUpperChar :: "char \<Rightarrow> string" where
  "toUpperChar c =
     (let n = (of_char c :: nat)
      in if (97 \<le> n \<and> n \<le> 122) \<or> (224 \<le> n \<and> n \<le> 254 \<and> n \<noteq> 247) then [char_of (n - 32)]
         else if n = 223 then ''SS''
         else [c])"

definition toUpperCase :: "string \<Rightarrow> string" where
  "toUpperCase s = concat (map toUpperChar s)"

text \<open>\<open>s.includes(sub)\<close> on strings: \<open>sub\<close> occurs in \<open>s\<close> as a contiguous segment.\<close>

fun str_includes :: "string \<Rightarrow> string \<Rightarrow> bool" where
  "str_includes [] sub = (sub = [])"
| "str_includes (c # cs) sub = (prefix sub (c # cs) \<or> str_includes cs sub)"

text \<open>\<open>xs.includes(x)\<close> on arrays: membership.\<close>

definition arr_includes :: "'a list \<Rightarrow> 'a \<Rightarrow> bool" where
  "arr_includes xs x = (x \<in> set xs)"

text \<open>
  \<open>s.split(sep)\<close> for a separator of one character. The result is never empty: the empty
  string splits into the single piece \<open>''''\<close>. A character other than the separator joins
  the first piece of the rest (which always exists).
\<close>

fun split_str :: "char \<Rightarrow> string \<Rightarrow> string list" where
  "split_str sep [] = [ [] ]"
| "split_str sep (c # cs) =
     (if c = sep then [] # split_str sep cs
      else (case split_str sep cs of
              w # ws \<Rightarrow> (c # w) # ws
            | [] \<Rightarrow> [ [c] ]))"

text \<open>\<open>ws.join(sep)\<close> for a separator of one character.\<close>

fun join_str :: "char \<Rightarrow> string list \<Rightarrow> string" where
  "join_str sep [] = []"
| "join_str sep [w] = w"
| "join_str sep (w # v # ws) = w @ sep # join_str sep (v # ws)"

text \<open>\<open>s.charAt(0)\<close> and \<open>s.slice(1)\<close>; both are the empty string on the empty string.\<close>

definition charAt0 :: "string \<Rightarrow> string" where
  "charAt0 s = take 1 s"

definition slice1 :: "string \<Rightarrow> string" where
  "slice1 s = drop 1 s"

text \<open>Decimal rendering of a number that holds an integer, as a template literal does it.\<close>

definition digit_char :: "nat \<Rightarrow> char" where
  "digit_char d = ''0123456789'' ! d"

fun digits :: "nat \<Rightarrow> string" where
  "digits n =
     (if n < 10 then [digit_char n] else digits (n div 10) @ [digit_char (n mod 10)])"

declare digits.simps [simp del]

definition toString_int :: "int \<Rightarrow> string" where
  "toString_int i = (if i < 0 then CHR ''-'' # digits (nat (- i)) else digits (nat i))"

text \<open>
  A number of the host is an IEEE double. A finite double that is not negative is
  \<open>mant * 2 ^ expo\<close> for integers with \<open>0 \<le> mant < 2 ^ 53\<close> and \<open>- 1074 \<le> expo \<le> 971\<close>;
  \<open>double_val\<close> is the number it denotes.
\<close>

record double =
  mant :: int
  expo :: int

definition is_double :: "double \<Rightarrow> bool" where
  "is_double x = (0 \<le> mant x \<and> mant x < 2 ^ 53 \<and> - 1074 \<le> expo x \<and> expo x \<le> 971)"

definition double_val :: "double \<Rightarrow> real" where
  "double_val x =
     (if 0 \<le> expo x then of_int (mant x) * 2 ^ nat (expo x)
      else of_int (mant x) / 2 ^ nat (- expo x))"

text \<open>The number of binary digits of an integer.\<close>

function bits :: "int \<Rightarrow> int" where
  "bits n = (if n \<le> 0 then 0 else 1 + bits (n div 2))"
  by pat_completeness auto
termination
  by (relation "measure nat") auto

declare bits.simps [simp del]

text \<open>\<open>n / 2 ^ s\<close> rounded to the nearest integer, a tie going to the even one.\<close>

definition round_shift :: "int \<Rightarrow> nat \<Rightarrow> int" where
  "round_shift n s =
     (let q = n div 2 ^ s; r = n mod 2 ^ s
      in if 2 ^ s < 2 * r \<or> (2 * r = 2 ^ s \<and> odd q) then q + 1 else q)"

text \<open>
  The product \<open>x * y\<close> of two such doubles: the exact product \<open>n * 2 ^ e\<close> rounded to the
  nearest double, ties to even. The rounding drops the \<open>s\<close> lowest binary digits, as many
  as exceed 53 digits or lie below \<open>2 ^ - 1074\<close>. Overflow to infinity is left out: the
  products of this program are below 20.
\<close>

definition double_mul :: "double \<Rightarrow> double \<Rightarrow> double" where
  "double_mul x y =
     (let n = mant x * mant y;
          e = expo x + expo y;
          s = max (max (bits n - 53) (- 1074 - e)) 0
      in \<lparr>mant = round_shift n (nat s), expo = e + s\<rparr>)"

definition Math_floor :: "double \<Rightarrow> int" where
  "Math_floor x =
     (if 0 \<le> expo x then mant x * 2 ^ nat (expo x)
      else mant x div 2 ^ nat (- expo x))"

definition twenty :: double where
  "twenty = \<lparr>mant = 5, expo = 2\<rparr>"

section \<open>Derivation of the product name\<close>

definition firstSentence :: "string \<Rightarrow> string" where
  "firstSentence description = hd (split_str CHR ''.'' description)"

text \<open>The test \<open>firstSentence.toLowerCase().includes(kw)\<close>.\<close>

definition keywordIn :: "string \<Rightarrow> string \<Rightarrow> bool" where
  "keywordIn kw sentence = str_includes (toLowerCase sentence) kw"

definition capitalize :: "string \<Rightarrow> string" where
  "capitalize word = toUpperCase (charAt0 word) @ slice1 word"

definition extractProductName :: "string \<Rightarrow> string" where
  "extractProductName description =
     (let fs = firstSentence description in
      if keywordIn ''hat'' fs then ''Premium Straw Hat''
      else if keywordIn ''shirt'' fs then ''Designer Shirt''
      else if keywordIn ''dress'' fs then ''Elegant Dress''
      else if keywordIn ''jacket'' fs then ''Stylish Jacket''
      else (let words = take 3 (split_str CHR '' '' fs)
            in join_str CHR '' '' (map capitalize words)))"

text \<open>
  Containment without regard to case, in the specification's sense: some segment of the
  sentence is the keyword once it is lowercased.
\<close>

definition containsIgnoringCase :: "string \<Rightarrow> string \<Rightarrow> bool" where
  "containsIgnoringCase s kw = (\<exists>u w v. s = u @ w @ v \<and> toLowerCase w = kw)"

text \<open>
  The whitespace-separated words of a sentence, in the specification's sense: the maximal
  runs of characters that are not whitespace (tab, line feed, vertical tab, form feed,
  carriage return, space, no-break space).
\<close>

definition isWhitespace :: "char \<Rightarrow> bool" where
  "isWhitespace c = ((of_char c :: nat) \<in> {9, 10, 11, 12, 13, 32, 160})"

fun whitespaceRuns :: "string \<Rightarrow> string list" where
  "whitespaceRuns [] = [ [] ]"
| "whitespaceRuns (c # cs) =
     (if isWhitespace c then [] # whitespaceRuns cs
      else (case whitespaceRuns cs of
              w # ws \<Rightarrow> (c # w) # ws
            | [] \<Rightarrow> [ [c] ]))"

definition whitespaceWords :: "string \<Rightarrow> string list" where
  "whitespaceWords s = filter (\<lambda>w. w \<noteq> []) (whitespaceRuns s)"

section \<open>Derivation of the price\<close>

text \<open>The base price after the five rules, in the order of the assignments.\<close>

definition priceBase :: "string \<Rightarrow> string list \<Rightarrow> int" where
  "priceBase description tags =
     (let desc = toLowerCase description;
          tagList = map toLowerCase tags;
          basePrice = 50;
          basePrice = (if str_includes desc ''hat'' then 45 else basePrice);
          basePrice = (if str_includes desc ''premium'' \<or> str_includes desc ''classic''
                       then basePrice + 20 else basePrice);
          basePrice = (if arr_includes tagList ''luxury'' \<or> arr_includes tagList ''designer''
                       then basePrice + 30 else basePrice);
          basePrice = (if arr_includes tagList ''handmade'' \<or> arr_includes tagList ''artisan''
                       then basePrice + 25 else basePrice);
          basePrice = (if str_includes desc ''straw'' \<and> str_includes desc ''wide-brim''
                       then basePrice + 15 else basePrice)
      in basePrice)"

text \<open>
  The random source is a parameter: \<open>rnd\<close> is the double that \<open>Math.random()\<close> returns,
  at least 0 and below 1. Its product with 20 is the rounded product of doubles.
\<close>

definition generatePrice :: "double \<Rightarrow> string \<Rightarrow> string list \<Rightarrow> string" where
  "generatePrice rnd description tags =
     (let basePrice = priceBase description tags;
          variation = Math_floor (double_mul rnd twenty) - 10;
          finalPrice = max (basePrice + variation) 25
      in ''$'' @ toString_int finalPrice @ ''.00'')"

text \<open>
  Reading a price back: the pattern \<open>/^\$\d+\.00$/\<close> and the number its digits denote.
\<close>

definition is_digit :: "char \<Rightarrow> bool" where
  "is_digit c = (c \<in> set ''0123456789'')"

definition digit_val :: "char \<Rightarrow> nat" where
  "digit_val c = of_char c - 48"

definition parse_nat :: "string \<Rightarrow> nat" where
  "parse_nat s = foldl (\<lambda>acc c. 10 * acc + digit_val c) 0 s"

definition priceDigits :: "string \<Rightarrow> string" where
  "priceDigits p = take (length p - 4) (drop 1 p)"

definition matchesPriceFormat :: "string \<Rightarrow> bool" where
  "matchesPriceFormat p =
     (p = ''$'' @ priceDigits p @ ''.00'' \<and> priceDigits p \<noteq> [] \<and> list_all is_digit (priceDigits p))"

definition priceValue :: "string \<Rightarrow> nat" where
  "priceValue p = parse_nat (priceDigits p)"

text \<open>
  The base price as the specification words it: 45 when the lowercased description contains
  \<open>hat\<close> and 50 otherwise, plus one independent surcharge for each rule that applies.
\<close>

definition derivePrice_base_spec :: "string \<Rightarrow> string list \<Rightarrow> int" where
  "derivePrice_base_spec description tags =
     (let desc = toLowerCase description;
          tagSet = set (map toLowerCase tags)
      in (if str_includes desc ''hat'' then 45 else 50)
         + (if str_includes desc ''premium'' \<or> str_includes desc ''classic'' then 20 else 0)
         + (if ''luxury'' \<in> tagSet \<or> ''designer'' \<in> tagSet then 30 else 0)
         + (if ''handmade'' \<in> tagSet \<or> ''artisan'' \<in> tagSet then 25 else 0)
         + (if str_includes desc ''straw'' \<and> str_includes desc ''wide-brim'' then 15 else 0))"

section \<open>The remote generation service\<close>

record ClothingAnalysis =
  description :: string
  tags :: "string list"

record ApiResponse =
  success :: bool
  message :: string
  clothing_analysis :: ClothingAnalysis
  generated_image_url :: string
  generated_image_path :: string

record ProductCard =
  card_id :: string
  card_productName :: string
  card_price :: string
  card_description :: string
  card_tags :: "string list"
  card_modelImage :: string
  card_productImage :: string

text \<open>An uploaded file: its name, its declared MIME type and its bytes.\<close>

record File =
  file_name :: string
  file_type :: string
  file_bytes :: "nat list"

datatype FormValue = Blob File | Text string

type_synonym FormData = "(string \<times> FormValue) list"

record Request =
  req_url :: string
  req_method :: string
  req_body :: FormData

text \<open>
  A value that was thrown, or with which a promise was rejected: an \<open>Error\<close> object with its
  message, or anything else.
\<close>

datatype thrown = Error string | NonError

text \<open>
  The response of the service: the body read as text and the body read as JSON each either
  fail or give their value. \<open>response.ok\<close> holds for the statuses 200 to 299.
\<close>

record Response =
  status :: nat
  statusText :: string
  body_text :: "thrown + string"
  body_json :: "thrown + ApiResponse"

definition ok :: "Response \<Rightarrow> bool" where
  "ok response = (200 \<le> status response \<and> status response \<le> 299)"

text \<open>
  What surrounds one generation attempt: the network (\<open>fetch\<close> either rejects or resolves
  with a response), the clock read by \<open>Date.now()\<close> and the number drawn by \<open>Math.random()\<close>.
\<close>

record Env =
  env_fetch :: "Request \<Rightarrow> thrown + Response"
  env_now :: nat
  env_random :: double

text \<open>The form data of a request; the optional part is appended for a truthy name only.\<close>

definition buildFormData :: "File \<Rightarrow> File \<Rightarrow> string option \<Rightarrow> FormData" where
  "buildFormData clothingImage modelImage outputFilename =
     (let formData = [];
          formData = formData @ [(''clothing_image'', Blob clothingImage)];
          formData = formData @ [(''model_image'', Blob modelImage)]
      in (case outputFilename of
            Some name \<Rightarrow> if name \<noteq> [] then formData @ [(''output_filename'', Text name)]
                         else formData
          | None \<Rightarrow> formData))"

definition buildRequest :: "File \<Rightarrow> File \<Rightarrow> string option \<Rightarrow> Request" where
  "buildRequest clothingImage modelImage outputFilename =
     \<lparr>req_url = ''http://localhost:8000/generate-product-listing'',
      req_method = ''POST'',
      req_body = buildFormData clothingImage modelImage outputFilename\<rparr>"

text \<open>
  The call of the service returns the requests it has sent together with its outcome:
  the decoded response, or what it throws.
\<close>

definition generateProductListing ::
  "(Request \<Rightarrow> thrown + Response) \<Rightarrow> File \<Rightarrow> File \<Rightarrow> string option
     \<Rightarrow> Request list \<times> (thrown + ApiResponse)" where
  "generateProductListing fetch clothingImage modelImage outputFilename =
     (let request = buildRequest clothingImage modelImage outputFilename
      in ([request],
          (case fetch request of
             Inl e \<Rightarrow> Inl e
           | Inr response \<Rightarrow>
               if \<not> ok response then
                 (case body_text response of
                    Inl e \<Rightarrow> Inl e
                  | Inr errorText \<Rightarrow>
                      Inl (Error (''API call failed: '' @ digits (status response) @ '' ''
                                  @ statusText response @ '' - '' @ errorText)))
               else body_json response)))"

definition mapApiResponseToProductCard :: "nat \<Rightarrow> double \<Rightarrow> ApiResponse \<Rightarrow> ProductCard" where
  "mapApiResponseToProductCard now rnd apiResponse =
     (let ca = clothing_analysis apiResponse;
          image_url = generated_image_url apiResponse
      in \<lparr>card_id = digits now,
          card_productName = extractProductName (description ca),
          card_price = generatePrice rnd (description ca) (tags ca),
          card_description = description ca,
          card_tags = tags ca,
          card_modelImage = ''http://localhost:8000'' @ image_url,
          card_productImage = ''http://localhost:8000'' @ image_url\<rparr>)"

section \<open>The generation store\<close>

record ProductStore =
  isGenerating :: bool
  generatedCards :: "ProductCard list"
  error :: "string option"

definition initialStore :: ProductStore where
  "initialStore = \<lparr>isGenerating = False, generatedCards = [], error = None\<rparr>"

definition allowedTypes :: "string list" where
  "allowedTypes =
     [''image/jpeg'', ''image/jpg'', ''image/png'', ''image/gif'', ''image/bmp'', ''image/webp'']"

text \<open>
  The body of the \<open>try\<close> block up to the new card: the requests sent, and either the card or
  what was thrown. An image that is absent is \<open>None\<close>.
\<close>

definition generateProductCard_try ::
  "Env \<Rightarrow> File option \<Rightarrow> File option \<Rightarrow> string option
     \<Rightarrow> Request list \<times> (thrown + ProductCard)" where
  "generateProductCard_try env clothingImage modelImage outputFilename =
     (case (clothingImage, modelImage) of
        (Some c, Some m) \<Rightarrow>
          if \<not> arr_includes allowedTypes (file_type c) then
            ([], Inl (Error ''Clothing image must be a valid image file (jpg, jpeg, png, gif, bmp, webp)''))
          else if \<not> arr_includes allowedTypes (file_type m) then
            ([], Inl (Error ''Model image must be a valid image file (jpg, jpeg, png, gif, bmp, webp)''))
          else
            (case generateProductListing (env_fetch env) c m outputFilename of
               (reqs, Inl e) \<Rightarrow> (reqs, Inl e)
             | (reqs, Inr apiResponse) \<Rightarrow>
                 (reqs, Inr (mapApiResponseToProductCard (env_now env) (env_random env) apiResponse)))
      | _ \<Rightarrow> ([], Inl (Error ''Both clothing and model images are required'')))"

text \<open>The message the \<open>catch\<close> block stores for what was thrown.\<close>

definition catchMessage :: "thrown \<Rightarrow> string" where
  "catchMessage e = (case e of Error m \<Rightarrow> m | NonError \<Rightarrow> ''Failed to generate product card'')"

text \<open>
  The two writes of one attempt: the one before the \<open>try\<close> block, and the one that settles
  it, which acts on the state it finds at that moment.
\<close>

definition generateProductCard_begin :: "ProductStore \<Rightarrow> ProductStore" where
  "generateProductCard_begin s = s\<lparr>isGenerating := True, error := None\<rparr>"

definition generateProductCard_settle :: "thrown + ProductCard \<Rightarrow> ProductStore \<Rightarrow> ProductStore" where
  "generateProductCard_settle r s =
     (case r of
        Inr newCard \<Rightarrow>
          s\<lparr>generatedCards := newCard # generatedCards s, isGenerating := False, error := None\<rparr>
      | Inl e \<Rightarrow> s\<lparr>isGenerating := False, error := Some (catchMessage e)\<rparr>)"

text \<open>One attempt with nothing else running: the final store and the requests sent.\<close>

definition generateProductCard ::
  "Env \<Rightarrow> File option \<Rightarrow> File option \<Rightarrow> string option \<Rightarrow> ProductStore
     \<Rightarrow> ProductStore \<times> Request list" where
  "generateProductCard env clothingImage modelImage outputFilename s =
     (let s1 = generateProductCard_begin s;
          (reqs, r) = generateProductCard_try env clothingImage modelImage outputFilename
      in (generateProductCard_settle r s1, reqs))"

definition clearCards :: "ProductStore \<Rightarrow> ProductStore" where
  "clearCards s = s\<lparr>generatedCards := [], error := None\<rparr>"

definition setError :: "string option \<Rightarrow> ProductStore \<Rightarrow> ProductStore" where
  "setError e s = s\<lparr>error := e\<rparr>"

section \<open>Example inputs\<close>

text \<open>Files, a stored card, responses of the service and surroundings used in the examples.\<close>

definition example_png :: File where
  "example_png = \<lparr>file_name = ''shirt.png'', file_type = ''image/png'', file_bytes = [137, 80, 78, 71]\<rparr>"

definition example_jpeg :: File where
  "example_jpeg = \<lparr>file_name = ''model.jpg'', file_type = ''image/jpeg'', file_bytes = [255, 216, 255]\<rparr>"

definition example_pdf :: File where
  "example_pdf = \<lparr>file_name = ''notes.pdf'', file_type = ''application/pdf'', file_bytes = [37, 80, 68, 70]\<rparr>"

definition example_card :: ProductCard where
  "example_card =
     \<lparr>card_id = ''1699999999999'', card_productName = ''Elegant Dress'', card_price = ''$52.00'',
      card_description = ''A long dress.'', card_tags = [''summer''],
      card_modelImage = ''http://localhost:8000/static/a.png'',
      card_productImage = ''http://localhost:8000/static/a.png''\<rparr>"

definition example_store :: ProductStore where
  "example_store = \<lparr>isGenerating = False, generatedCards = [example_card], error = Some ''earlier failure''\<rparr>"

definition example_api :: ApiResponse where
  "example_api =
     \<lparr>success = True, message = ''done'',
      clothing_analysis = \<lparr>description = ''A classic straw wide-brim hat with leather trim.'',
                            tags = [''handmade'', ''luxury'']\<rparr>,
      generated_image_url = ''/static/b.png'', generated_image_path = ''static/b.png''\<rparr>"

definition example_response_200 :: Response where
  "example_response_200 =
     \<lparr>status = 200, statusText = ''OK'', body_text = Inr ''{}'', body_json = Inr example_api\<rparr>"


text \<open>Doubles: 0, 1/2, the double nearest to 0.7, and the largest double below 1.\<close>

definition example_zero :: double where
  "example_zero = \<lparr>mant = 0, expo = 0\<rparr>"

definition example_half :: double where
  "example_half = \<lparr>mant = 1, expo = - 1\<rparr>"

definition example_seven_tenths :: double where
  "example_seven_tenths = \<lparr>mant = 6305039478318694, expo = - 53\<rparr>"

definition example_below_one :: double where
  "example_below_one = \<lparr>mant = 9007199254740991, expo = - 53\<rparr>"

definition example_env :: "Response \<Rightarrow> Env" where
  "example_env response =
     \<lparr>env_fetch = (\<lambda>request. Inr response), env_now = 1700000000000, env_random = example_half\<rparr>"


section \<open>Facts about strings and numbers\<close>

lemma str_includes_sublist: "str_includes s sub = sublist sub s"
  by (induction s) (simp_all add: sublist_Cons_right)

lemma str_includes_iff: "str_includes s sub \<longleftrightarrow> (\<exists>u v. s = u @ sub @ v)"
  by (simp add: str_includes_sublist sublist_def)

lemma keywordIn_iff:
  "keywordIn kw s \<longleftrightarrow> (\<exists>u w v. s = u @ w @ v \<and> toLowerCase w = kw)"
proof
  assume "keywordIn kw s"
  then obtain a b where ab: "map toLowerChar s = a @ kw @ b"
    by (auto simp: keywordIn_def toLowerCase_def str_includes_iff)
  then obtain u r where ur: "s = u @ r" "kw @ b = map toLowerChar r"
    by (metis map_eq_append_conv)
  then obtain w v where "r = w @ v" "map toLowerChar w = kw"
    by (metis append_eq_map_conv)
  with ur show "\<exists>u w v. s = u @ w @ v \<and> toLowerCase w = kw"
    by (auto simp: toLowerCase_def)
next
  assume "\<exists>u w v. s = u @ w @ v \<and> toLowerCase w = kw"
  then obtain u w v where "s = u @ w @ v" "toLowerCase w = kw" by blast
  then have "toLowerCase s = toLowerCase u @ kw @ toLowerCase v"
    by (simp add: toLowerCase_def)
  then show "keywordIn kw s"
    unfolding keywordIn_def str_includes_iff by blast
qed

lemma split_str_not_Nil: "split_str sep s \<noteq> []"
  by (induction s) (auto split: list.splits)

lemma hd_split_str: "hd (split_str sep s) = takeWhile (\<lambda>c. c \<noteq> sep) s"
  using split_str_not_Nil [of sep]
  by (induction s) (auto split: list.splits)

lemma firstSentence_takeWhile: "firstSentence d = takeWhile (\<lambda>c. c \<noteq> CHR ''.'') d"
  by (simp add: firstSentence_def hd_split_str)

lemma split_str_pieces: "w \<in> set (split_str sep s) \<Longrightarrow> sep \<notin> set w"
  by (induction s arbitrary: w) (auto split: list.splits if_splits)

lemma join_split_str: "join_str sep (split_str sep s) = s"
proof (induction s)
  case Nil
  show ?case by simp
next
  case (Cons c cs)
  obtain w ws where ws: "split_str sep cs = w # ws"
    using split_str_not_Nil [of sep cs] by (cases "split_str sep cs") auto
  with Cons show ?case
    by (cases ws) auto
qed

lemma split_str_no_sep: "sep \<notin> set w \<Longrightarrow> split_str sep w = [w]"
  by (induction w) auto

lemma split_str_append_sep:
  "sep \<notin> set w \<Longrightarrow> split_str sep (w @ sep # r) = w # split_str sep r"
  by (induction w) auto

lemma split_join_str:
  "ws \<noteq> [] \<Longrightarrow> (\<And>w. w \<in> set ws \<Longrightarrow> sep \<notin> set w) \<Longrightarrow> split_str sep (join_str sep ws) = ws"
proof (induction sep ws rule: join_str.induct)
  case (1 sep)
  then show ?case by simp
next
  case (2 sep w)
  then show ?case by (simp add: split_str_no_sep)
next
  case (3 sep w v ws)
  then show ?case by (simp add: split_str_append_sep)
qed

lemma join_str_Nil_iff: "join_str sep ws = [] \<longleftrightarrow> ws = [] \<or> ws = [ [] ]"
  by (induction sep ws rule: join_str.induct) auto

lemma toUpperChar_not_Nil: "toUpperChar c \<noteq> []"
  by (simp add: toUpperChar_def Let_def)

lemma toUpperChar_no_space:
  assumes "c \<noteq> CHR '' ''"
  shows "CHR '' '' \<notin> set (toUpperChar c)"
proof (cases "(97 \<le> (of_char c :: nat) \<and> (of_char c :: nat) \<le> 122)
    \<or> (224 \<le> (of_char c :: nat) \<and> (of_char c :: nat) \<le> 254 \<and> (of_char c :: nat) \<noteq> 247)")
  case True
  then have up: "toUpperChar c = [char_of ((of_char c :: nat) - 32)]"
    by (simp add: toUpperChar_def Let_def)
  from True have small: "(of_char c :: nat) - 32 < 256" by arith
  have "char_of ((of_char c :: nat) - 32) \<noteq> CHR '' ''"
  proof
    assume "char_of ((of_char c :: nat) - 32) = CHR '' ''"
    then have "(of_char (char_of ((of_char c :: nat) - 32)) :: nat) = of_char CHR '' ''"
      by simp
    with small have "(of_char c :: nat) - 32 = 32" by simp
    with True show False by arith
  qed
  then show ?thesis by (simp add: up)
next
  case False
  then have "toUpperChar c = (if (of_char c :: nat) = 223 then ''SS'' else [c])"
    by (simp only: toUpperChar_def Let_def if_not_P [OF False] if_False)
  with assms show ?thesis by simp
qed

lemma capitalize_Nil: "capitalize [] = []"
  by (simp add: capitalize_def charAt0_def slice1_def toUpperCase_def)

lemma capitalize_Cons: "capitalize (c # cs) = toUpperChar c @ cs"
  by (simp add: capitalize_def charAt0_def slice1_def toUpperCase_def)

lemma capitalize_Nil_iff: "capitalize w = [] \<longleftrightarrow> w = []"
  by (cases w) (simp_all add: capitalize_Nil capitalize_Cons toUpperChar_not_Nil)

lemma capitalize_no_space: "CHR '' '' \<notin> set w \<Longrightarrow> CHR '' '' \<notin> set (capitalize w)"
proof (cases w)
  case Nil
  then show ?thesis by (simp add: capitalize_Nil)
next
  case (Cons c cs)
  assume "CHR '' '' \<notin> set w"
  with Cons have "c \<noteq> CHR '' ''" "CHR '' '' \<notin> set cs" by auto
  then show ?thesis
    using toUpperChar_no_space [of c] by (simp add: Cons capitalize_Cons)
qed

lemma digit_cases:
  "d < 10 \<Longrightarrow> d = 0 \<or> d = 1 \<or> d = 2 \<or> d = 3 \<or> d = 4 \<or> d = 5 \<or> d = 6 \<or> d = 7 \<or> d = 8 \<or> d = (9::nat)"
  by arith

lemma digit_val_digit_char: "d < 10 \<Longrightarrow> digit_val (digit_char d) = d"
  using digit_cases [of d] by (auto simp: digit_val_def digit_char_def)

lemma is_digit_digit_char: "d < 10 \<Longrightarrow> is_digit (digit_char d)"
  using digit_cases [of d] by (auto simp: is_digit_def digit_char_def)

lemma digits_not_Nil: "digits n \<noteq> []"
  by (subst digits.simps) simp

lemma digits_all_digit: "list_all is_digit (digits n)"
proof (induction n rule: digits.induct)
  case (1 n)
  then show ?case
    by (subst digits.simps) (simp add: is_digit_digit_char)
qed

lemma parse_nat_snoc: "parse_nat (xs @ [c]) = 10 * parse_nat xs + digit_val c"
  by (simp add: parse_nat_def)

lemma parse_nat_digits: "parse_nat (digits n) = n"
proof (induction n rule: digits.induct)
  case (1 n)
  show ?case
  proof (cases "n < 10")
    case True
    then show ?thesis
      by (subst digits.simps) (simp add: parse_nat_def digit_val_digit_char)
  next
    case False
    with 1 have "parse_nat (digits (n div 10)) = n div 10" by simp
    with False show ?thesis
      by (subst digits.simps) (simp add: parse_nat_snoc digit_val_digit_char)
  qed
qed

lemma priceDigits_price: "priceDigits (''$'' @ ds @ ''.00'') = ds"
  by (simp add: priceDigits_def)

lemma matchesPriceFormat_price: "matchesPriceFormat (''$'' @ digits n @ ''.00'')"
  unfolding matchesPriceFormat_def priceDigits_price
  by (simp add: digits_not_Nil digits_all_digit)

lemma priceValue_price: "priceValue (''$'' @ digits n @ ''.00'') = n"
  unfolding priceValue_def priceDigits_price by (rule parse_nat_digits)

lemma priceBase_spec: "priceBase d ts = derivePrice_base_spec d ts"
  by (simp add: priceBase_def derivePrice_base_spec_def Let_def arr_includes_def)

lemma priceBase_ge: "45 \<le> priceBase d ts"
  by (simp add: priceBase_def Let_def)

lemma priceBase_le: "priceBase d ts \<le> 140"
  by (simp add: priceBase_def Let_def)

lemma bits_le: "n < 2 ^ k \<Longrightarrow> bits n \<le> int k"
proof (induction n arbitrary: k rule: bits.induct)
  case (1 n)
  show ?case
  proof (cases "n \<le> 0")
    case True
    then show ?thesis by (simp add: bits.simps)
  next
    case False
    with 1(2) obtain j where k: "k = Suc j" by (cases k) auto
    with 1(2) have "n div 2 < 2 ^ j" by auto
    with 1(1) [OF False] have "bits (n div 2) \<le> int j" by simp
    with False k show ?thesis by (subst bits.simps) simp
  qed
qed

lemma round_shift_le: "2 * (round_shift n s * 2 ^ s) \<le> 2 * n + 2 ^ s"
proof -
  define q where "q = n div 2 ^ s"
  define r where "r = n mod 2 ^ s"
  have n: "n = q * 2 ^ s + r" unfolding q_def r_def by (rule div_mult_mod_eq [symmetric])
  show ?thesis
  proof (cases "2 ^ s < 2 * r \<or> (2 * r = 2 ^ s \<and> odd q)")
    case True
    then have "(2::int) ^ s \<le> 2 * r" by auto
    moreover from True have "round_shift n s = q + 1"
      by (simp add: round_shift_def Let_def q_def r_def)
    ultimately show ?thesis unfolding n by (simp add: algebra_simps)
  next
    case False
    then have "round_shift n s = q"
      by (simp add: round_shift_def Let_def q_def r_def)
    moreover have "0 \<le> r" by (simp add: r_def)
    ultimately show ?thesis unfolding n by (simp add: algebra_simps)
  qed
qed

lemma round_shift_nonneg: "0 \<le> n \<Longrightarrow> 0 \<le> round_shift n s"
  by (simp add: round_shift_def Let_def pos_imp_zdiv_nonneg_iff)


lemma double_val_powr: "double_val x = of_int (mant x) * 2 powr (of_int (expo x))"
proof (cases "0 \<le> expo x")
  case True
  then have "2 powr (of_int (expo x) :: real) = 2 ^ nat (expo x)"
    by (simp add: powr_realpow [symmetric])
  with True show ?thesis by (simp add: double_val_def)
next
  case False
  then have "2 powr (of_int (expo x) :: real) = 1 / 2 ^ nat (- expo x)"
    by (simp add: powr_realpow [symmetric] powr_minus_divide [symmetric])
  with False show ?thesis by (simp add: double_val_def)
qed

lemma Math_floor_eq: "Math_floor x = \<lfloor>double_val x\<rfloor>"
proof (cases "0 \<le> expo x")
  case True
  have "\<lfloor>(of_int (mant x * 2 ^ nat (expo x)) :: real)\<rfloor> = mant x * 2 ^ nat (expo x)"
    by (rule floor_of_int)
  with True show ?thesis by (simp add: Math_floor_def double_val_def)
next
  case False
  have "\<lfloor>(of_int (mant x) :: real) / of_int (2 ^ nat (- expo x))\<rfloor> = mant x div 2 ^ nat (- expo x)"
    by (rule floor_divide_of_int_eq)
  with False show ?thesis by (simp add: Math_floor_def double_val_def)
qed


lemma round_shift_zero: "round_shift 0 s = 0"
  by (simp add: round_shift_def)

lemma mul_twenty_shift:
  assumes "is_double x"
  shows "double_mul x twenty
           = \<lparr>mant = round_shift (mant x * 5) (nat (max (bits (mant x * 5) - 53) 0)),
              expo = expo x + 2 + max (bits (mant x * 5) - 53) 0\<rparr>"
    and "max (bits (mant x * 5) - 53) 0 \<le> 3"
proof -
  from assms have e: "- 1074 \<le> expo x" and m: "mant x < 2 ^ 53" by (simp_all add: is_double_def)
  from m have "mant x * 5 < 2 ^ 56" by simp
  then have "bits (mant x * 5) \<le> int 56" by (rule bits_le)
  then show "max (bits (mant x * 5) - 53) 0 \<le> 3" by simp
  from e have "max (max (bits (mant x * 5) - 53) (- 1074 - (expo x + 2))) 0
      = max (bits (mant x * 5) - 53) 0" by simp
  then show "double_mul x twenty
           = \<lparr>mant = round_shift (mant x * 5) (nat (max (bits (mant x * 5) - 53) 0)),
              expo = expo x + 2 + max (bits (mant x * 5) - 53) 0\<rparr>"
    by (simp add: double_mul_def twenty_def Let_def)
qed

lemma mul_twenty_below:
  assumes d: "is_double x" and lt: "double_val x < 1"
  shows "double_val (double_mul x twenty) < 20"
proof -
  define m where "m = mant x"
  define e where "e = expo x"
  define s where "s = max (bits (m * 5) - 53) 0"
  define S where "S = nat s"
  define rs where "rs = round_shift (m * 5) S"
  from d have m0: "0 \<le> m" by (simp add: is_double_def m_def)
  have s0: "0 \<le> s" and s3: "s \<le> 3"
    using mul_twenty_shift(2) [OF d] by (simp_all add: s_def m_def)
  then have S3: "S \<le> 3" and sS: "s = int S" by (simp_all add: S_def)
  have res: "double_mul x twenty = \<lparr>mant = rs, expo = e + 2 + s\<rparr>"
    using mul_twenty_shift(1) [OF d] by (simp add: rs_def S_def s_def m_def e_def)
  show ?thesis
  proof (cases "m = 0")
    case True
    then show ?thesis by (simp add: res rs_def round_shift_zero double_val_def)
  next
    case False
    with m0 have m1: "1 \<le> m" by simp
    from lt have lt': "of_int m * 2 powr (of_int e) < (1::real)"
      by (simp add: double_val_powr m_def e_def)
    have eneg: "e < 0"
    proof (rule ccontr)
      assume "\<not> e < 0"
      then have "(1::real) \<le> 2 powr (of_int e)" by (simp add: ge_one_powr_ge_zero)
      moreover from m1 have "(1::real) \<le> of_int m" by simp
      ultimately have "(1::real) * 1 \<le> of_int m * 2 powr (of_int e)"
        by (intro mult_mono) simp_all
      with lt' show False by simp
    qed
    define E where "E = nat (- e)"
    from eneg have eE: "e = - int E" by (simp add: E_def)
    have pw: "2 powr (of_int e) = 1 / (2::real) ^ E"
      by (simp add: eE powr_minus_divide powr_realpow)
    from lt' have "(of_int m :: real) < 2 ^ E" by (simp add: pw field_simps)
    then have "(of_int m :: real) < of_int (2 ^ E)" by simp
    then have "m < 2 ^ E" by (simp only: of_int_less_iff)
    then have mle: "m \<le> 2 ^ E - 1" by simp
    have "2 * (rs * 2 ^ S) \<le> 2 * (m * 5) + 2 ^ S"
      unfolding rs_def by (rule round_shift_le)
    moreover from S3 have "(2::int) ^ S \<le> 2 ^ 3" by (intro power_increasing) simp_all
    ultimately have "2 * (rs * 2 ^ S) \<le> 2 * (m * 5) + 8" by simp
    with mle have bound: "rs * 2 ^ S \<le> 5 * 2 ^ E - 1" by simp
    then have "(of_int (rs * 2 ^ S) :: real) \<le> of_int (5 * 2 ^ E - 1)"
      by (simp only: of_int_le_iff)
    then have boundr: "(of_int rs :: real) * 2 ^ S \<le> 5 * 2 ^ E - 1"
      by simp
    have "double_val (double_mul x twenty) = of_int rs * 2 powr (of_int (e + 2 + s))"
      by (simp add: res double_val_powr)
    also have "2 powr (of_int (e + 2 + s) :: real) = 2 powr (of_int e) * 2 powr 2 * 2 powr (of_int s)"
      by (simp add: powr_add)
    also have "\<dots> = (1 / 2 ^ E) * 4 * 2 ^ S"
      by (simp add: pw sS powr_realpow)
    finally have val: "double_val (double_mul x twenty) = (of_int rs * 2 ^ S) * 4 / 2 ^ E"
      by simp
    have "(of_int rs * 2 ^ S) * 4 / (2::real) ^ E \<le> (5 * 2 ^ E - 1) * 4 / 2 ^ E"
      using boundr by (intro divide_right_mono mult_right_mono) simp_all
    also have "\<dots> = 20 - 4 / 2 ^ E" by (simp add: field_simps)
    also have "\<dots> < 20" by simp
    finally show ?thesis unfolding val .
  qed
qed

lemma mul_twenty_nonneg:
  assumes "is_double x"
  shows "0 \<le> Math_floor (double_mul x twenty)"
proof -
  from assms have "0 \<le> mant x * 5" by (simp add: is_double_def)
  then have "0 \<le> mant (double_mul x twenty)"
    by (simp add: double_mul_def twenty_def Let_def round_shift_nonneg)
  then show ?thesis
    by (simp add: Math_floor_def pos_imp_zdiv_nonneg_iff)
qed

lemma variation_range:
  assumes "is_double x" and "double_val x < 1"
  shows "0 \<le> Math_floor (double_mul x twenty)" and "Math_floor (double_mul x twenty) \<le> 19"
proof -
  show "0 \<le> Math_floor (double_mul x twenty)" by (rule mul_twenty_nonneg [OF assms(1)])
  have "\<lfloor>double_val (double_mul x twenty)\<rfloor> < 20"
    using mul_twenty_below [OF assms] by (simp add: floor_less_iff)
  then show "Math_floor (double_mul x twenty) \<le> 19" by (simp add: Math_floor_eq)
qed

lemma generatePrice_eq:
  assumes "is_double rnd"
  shows "generatePrice rnd d ts
           = ''$'' @ digits (nat (priceBase d ts + (Math_floor (double_mul rnd twenty) - 10))) @ ''.00''"
proof -
  have "35 \<le> priceBase d ts + (Math_floor (double_mul rnd twenty) - 10)"
    using priceBase_ge [of d ts] mul_twenty_nonneg [OF assms] by linarith
  then show ?thesis
    by (simp add: generatePrice_def Let_def toString_int_def max_def)
qed

lemma containsIgnoringCase_iff: "containsIgnoringCase s kw = keywordIn kw s"
  by (simp add: containsIgnoringCase_def keywordIn_iff)

lemma split_str_single_Nil: "split_str sep s = [ [] ] \<longleftrightarrow> s = []"
proof
  assume "split_str sep s = [ [] ]"
  then have "join_str sep (split_str sep s) = []" by simp
  then show "s = []" by (simp add: join_split_str)
qed simp

lemma take3_single: "take 3 xs = [x] \<longleftrightarrow> xs = [x]"
proof
  assume h: "take 3 xs = [x]"
  then have "length (take 3 xs) = 1" by simp
  then have "length xs = 1" by (simp add: min_def split: if_splits)
  with h show "xs = [x]" by simp
qed simp

lemma fallback_name_Nil_iff:
  "join_str CHR '' '' (map capitalize (take 3 (split_str CHR '' '' fs))) = [] \<longleftrightarrow> fs = []"
proof -
  let ?ws = "take 3 (split_str CHR '' '' fs)"
  have ne: "?ws \<noteq> []" using split_str_not_Nil [of "CHR '' ''" fs] by simp
  have "map capitalize ?ws = [ [] ] \<longleftrightarrow> ?ws = [ [] ]"
    by (cases ?ws) (auto simp: capitalize_Nil_iff)
  then have "join_str CHR '' '' (map capitalize ?ws) = [] \<longleftrightarrow> ?ws = [ [] ]"
    using ne by (simp add: join_str_Nil_iff)
  then show ?thesis by (simp add: take3_single split_str_single_Nil)
qed

lemma fallback_name_pieces:
  "split_str CHR '' '' (join_str CHR '' '' (map capitalize (take 3 (split_str CHR '' '' fs))))
     = map capitalize (take 3 (split_str CHR '' '' fs))"
proof (rule split_join_str)
  show "map capitalize (take 3 (split_str CHR '' '' fs)) \<noteq> []"
    using split_str_not_Nil [of "CHR '' ''" fs] by simp
next
  fix w assume "w \<in> set (map capitalize (take 3 (split_str CHR '' '' fs)))"
  then obtain v where v: "v \<in> set (take 3 (split_str CHR '' '' fs))" "w = capitalize v" by auto
  from v(1) have "v \<in> set (split_str CHR '' '' fs)" by (rule in_set_takeD)
  then have "CHR '' '' \<notin> set v" by (rule split_str_pieces)
  then show "CHR '' '' \<notin> set w" unfolding v(2) by (rule capitalize_no_space)
qed

lemma fallback_name_eq:
  assumes "\<not> keywordIn ''hat'' (firstSentence d)" and "\<not> keywordIn ''shirt'' (firstSentence d)"
    and "\<not> keywordIn ''dress'' (firstSentence d)" and "\<not> keywordIn ''jacket'' (firstSentence d)"
  shows "extractProductName d
           = join_str CHR '' '' (map capitalize (take 3 (split_str CHR '' '' (firstSentence d))))"
  using assms by (simp add: extractProductName_def Let_def)

section \<open>The product name\<close>

text \<open>
  C5: the first sentence is the text before the first period, or the whole description when
  there is none. When it contains \<open>hat\<close> without regard to case, \<open>extractProductName\<close> returns
  \<open>Premium Straw Hat\<close> whatever else the description holds; the keywords \<open>hat\<close>, \<open>shirt\<close>,
  \<open>dress\<close> and \<open>jacket\<close> are tried in this order and the first that occurs fixes the label.
\<close>

theorem extractProductName_keyword_priority:
  "firstSentence d = takeWhile (\<lambda>c. c \<noteq> CHR ''.'') d \<and>
   (containsIgnoringCase (firstSentence d) ''hat'' \<longrightarrow>
      extractProductName d = ''Premium Straw Hat'') \<and>
   (\<not> containsIgnoringCase (firstSentence d) ''hat'' \<and>
    containsIgnoringCase (firstSentence d) ''shirt'' \<longrightarrow>
      extractProductName d = ''Designer Shirt'') \<and>
   (\<not> containsIgnoringCase (firstSentence d) ''hat'' \<and>
    \<not> containsIgnoringCase (firstSentence d) ''shirt'' \<and>
    containsIgnoringCase (firstSentence d) ''dress'' \<longrightarrow>
      extractProductName d = ''Elegant Dress'') \<and>
   (\<not> containsIgnoringCase (firstSentence d) ''hat'' \<and>
    \<not> containsIgnoringCase (firstSentence d) ''shirt'' \<and>
    \<not> containsIgnoringCase (firstSentence d) ''dress'' \<and>
    containsIgnoringCase (firstSentence d) ''jacket'' \<longrightarrow>
      extractProductName d = ''Stylish Jacket'')"
  by (simp add: firstSentence_takeWhile [symmetric] containsIgnoringCase_iff
      extractProductName_def Let_def)

theorem extractProductName_keyword_priority_witness:
  "containsIgnoringCase (firstSentence ''A red Hat and a shirt. Nice jacket'') ''hat'' \<and>
   extractProductName ''A red Hat and a shirt. Nice jacket'' = ''Premium Straw Hat'' \<and>
   \<not> containsIgnoringCase (firstSentence ''Blue SHIRT dress. With hat'') ''hat'' \<and>
   containsIgnoringCase (firstSentence ''Blue SHIRT dress. With hat'') ''shirt'' \<and>
   extractProductName ''Blue SHIRT dress. With hat'' = ''Designer Shirt'' \<and>
   \<not> containsIgnoringCase (firstSentence ''Dress and jacket'') ''hat'' \<and>
   \<not> containsIgnoringCase (firstSentence ''Dress and jacket'') ''shirt'' \<and>
   containsIgnoringCase (firstSentence ''Dress and jacket'') ''dress'' \<and>
   extractProductName ''Dress and jacket'' = ''Elegant Dress'' \<and>
   \<not> containsIgnoringCase (firstSentence ''JACKET.'') ''hat'' \<and>
   \<not> containsIgnoringCase (firstSentence ''JACKET.'') ''shirt'' \<and>
   \<not> containsIgnoringCase (firstSentence ''JACKET.'') ''dress'' \<and>
   containsIgnoringCase (firstSentence ''JACKET.'') ''jacket'' \<and>
   extractProductName ''JACKET.'' = ''Stylish Jacket''"
proof -
  have h1: "keywordIn ''hat'' (firstSentence ''A red Hat and a shirt. Nice jacket'')"
    by code_simp
  have h2: "\<not> keywordIn ''hat'' (firstSentence ''Blue SHIRT dress. With hat'')"
    "keywordIn ''shirt'' (firstSentence ''Blue SHIRT dress. With hat'')"
    by code_simp+
  have h3: "\<not> keywordIn ''hat'' (firstSentence ''Dress and jacket'')"
    "\<not> keywordIn ''shirt'' (firstSentence ''Dress and jacket'')"
    "keywordIn ''dress'' (firstSentence ''Dress and jacket'')"
    by code_simp+
  have h4: "\<not> keywordIn ''hat'' (firstSentence ''JACKET.'')"
    "\<not> keywordIn ''shirt'' (firstSentence ''JACKET.'')"
    "\<not> keywordIn ''dress'' (firstSentence ''JACKET.'')"
    "keywordIn ''jacket'' (firstSentence ''JACKET.'')"
    by code_simp+
  note c1 = h1 [folded containsIgnoringCase_iff]
  note c2 = h2 [folded containsIgnoringCase_iff]
  note c3 = h3 [folded containsIgnoringCase_iff]
  note c4 = h4 [folded containsIgnoringCase_iff]
  note t1 = extractProductName_keyword_priority [of "''A red Hat and a shirt. Nice jacket''"]
  note t2 = extractProductName_keyword_priority [of "''Blue SHIRT dress. With hat''"]
  note t3 = extractProductName_keyword_priority [of "''Dress and jacket''"]
  note t4 = extractProductName_keyword_priority [of "''JACKET.''"]
  have r1: "extractProductName ''A red Hat and a shirt. Nice jacket'' = ''Premium Straw Hat''"
    using t1 c1 by (elim conjE) (erule (1) mp)
  have r2: "extractProductName ''Blue SHIRT dress. With hat'' = ''Designer Shirt''"
    using t2 c2 by (elim conjE) simp
  have r3: "extractProductName ''Dress and jacket'' = ''Elegant Dress''"
    using t3 c3 by (elim conjE) simp
  have r4: "extractProductName ''JACKET.'' = ''Stylish Jacket''"
    using t4 c4 by (elim conjE) simp
  show ?thesis
    by (intro conjI; fact)
qed

text \<open>
  C6, as stated, fails in two ways. The empty description matches no keyword and its name is
  the empty string. And the pieces are cut at single spaces, not at whitespace: for
  \<open>a\<close>, tab, \<open>b c d e\<close> the name is \<open>A\<close>, tab, \<open>b C D\<close>, which holds four
  whitespace-separated words, the second one not capitalised, where the first three words
  are \<open>a\<close>, \<open>b\<close> and \<open>c\<close>.
\<close>

theorem extractProductName_fallback_counterexample:
  "\<not> keywordIn ''hat'' (firstSentence []) \<and> \<not> keywordIn ''shirt'' (firstSentence []) \<and>
   \<not> keywordIn ''dress'' (firstSentence []) \<and> \<not> keywordIn ''jacket'' (firstSentence []) \<and>
   extractProductName [] = [] \<and>
   \<not> keywordIn ''hat'' (firstSentence (''a'' @ [CHR 0x09] @ ''b c d e'')) \<and>
   \<not> keywordIn ''shirt'' (firstSentence (''a'' @ [CHR 0x09] @ ''b c d e'')) \<and>
   \<not> keywordIn ''dress'' (firstSentence (''a'' @ [CHR 0x09] @ ''b c d e'')) \<and>
   \<not> keywordIn ''jacket'' (firstSentence (''a'' @ [CHR 0x09] @ ''b c d e'')) \<and>
   extractProductName (''a'' @ [CHR 0x09] @ ''b c d e'') = ''A'' @ [CHR 0x09] @ ''b C D'' \<and>
   whitespaceWords (extractProductName (''a'' @ [CHR 0x09] @ ''b c d e''))
     = [''A'', ''b'', ''C'', ''D''] \<and>
   take 3 (whitespaceWords (firstSentence (''a'' @ [CHR 0x09] @ ''b c d e'')))
     = [''a'', ''b'', ''c'']"
  by code_simp

text \<open>
  C6, amended: when the first sentence matches none of the four keywords, the name is made of
  the first three (or fewer, when there are fewer) pieces of the first sentence between single
  spaces, each with its first character in upper case and the rest as it was, joined by single
  spaces; it is the empty string exactly when the first sentence is empty. This is stated
  for first sentences whose characters have their capital among the code units below 256.
\<close>

theorem extractProductName_fallback:
  assumes "\<not> keywordIn ''hat'' (firstSentence d)" and "\<not> keywordIn ''shirt'' (firstSentence d)"
    and "\<not> keywordIn ''dress'' (firstSentence d)" and "\<not> keywordIn ''jacket'' (firstSentence d)"
    and "list_all capitalInRange (firstSentence d)"
  shows "split_str CHR '' '' (extractProductName d)
           = map capitalize (take 3 (split_str CHR '' '' (firstSentence d))) \<and>
         length (split_str CHR '' '' (extractProductName d)) \<le> 3 \<and>
         (extractProductName d = [] \<longleftrightarrow> firstSentence d = []) \<and>
         capitalize [] = [] \<and>
         (\<forall>c cs. capitalInRange c \<longrightarrow> capitalize (c # cs) = toUpperChar c @ cs)"
proof -
  note eq = fallback_name_eq [OF assms(1-4)]
  have a: "split_str CHR '' '' (extractProductName d)
           = map capitalize (take 3 (split_str CHR '' '' (firstSentence d)))"
    unfolding eq by (rule fallback_name_pieces)
  have b: "length (split_str CHR '' '' (extractProductName d)) \<le> 3"
    unfolding a by simp
  have c: "extractProductName d = [] \<longleftrightarrow> firstSentence d = []"
    unfolding eq by (rule fallback_name_Nil_iff)
  from a b c capitalize_Nil capitalize_Cons show ?thesis by blast
qed

theorem extractProductName_fallback_witness:
  "\<not> keywordIn ''hat'' (firstSentence ''blue  jeans for men and.women'') \<and>
   \<not> keywordIn ''shirt'' (firstSentence ''blue  jeans for men and.women'') \<and>
   \<not> keywordIn ''dress'' (firstSentence ''blue  jeans for men and.women'') \<and>
   \<not> keywordIn ''jacket'' (firstSentence ''blue  jeans for men and.women'') \<and>
   list_all capitalInRange (firstSentence ''blue  jeans for men and.women'') \<and>
   extractProductName ''blue  jeans for men and.women'' = ''Blue  Jeans'' \<and>
   split_str CHR '' '' (extractProductName ''blue  jeans for men and.women'')
     = map capitalize (take 3 (split_str CHR '' '' (firstSentence ''blue  jeans for men and.women''))) \<and>
   length (split_str CHR '' '' (extractProductName ''blue  jeans for men and.women'')) \<le> 3 \<and>
   (extractProductName ''blue  jeans for men and.women'' = [] \<longleftrightarrow>
      firstSentence ''blue  jeans for men and.women'' = []) \<and>
   capitalInRange (CHR 0xE9) \<and>
   capitalize (CHR 0xE9 # ''lan'') = CHR 0xC9 # ''lan'' \<and>
   capitalInRange (CHR 0xDF) \<and>
   capitalize (CHR 0xDF # ''en'') = ''SSen'' \<and>
   extractProductName (CHR 0xE9 # ''lan vital'') = CHR 0xC9 # ''lan Vital''"
proof -
  have h: "\<not> keywordIn ''hat'' (firstSentence ''blue  jeans for men and.women'')"
    "\<not> keywordIn ''shirt'' (firstSentence ''blue  jeans for men and.women'')"
    "\<not> keywordIn ''dress'' (firstSentence ''blue  jeans for men and.women'')"
    "\<not> keywordIn ''jacket'' (firstSentence ''blue  jeans for men and.women'')"
    "list_all capitalInRange (firstSentence ''blue  jeans for men and.women'')"
    by code_simp+
  have v: "extractProductName ''blue  jeans for men and.women'' = ''Blue  Jeans''"
    by code_simp
  note t = extractProductName_fallback [OF h]
  note t1 = t [THEN conjunct1]
  note t2 = t [THEN conjunct2, THEN conjunct1]
  note t3 = t [THEN conjunct2, THEN conjunct2, THEN conjunct1]
  note t4 = t [THEN conjunct2, THEN conjunct2, THEN conjunct2, THEN conjunct2]
  have r1: "capitalInRange (CHR 0xE9)" and r2: "capitalInRange (CHR 0xDF)"
    by code_simp+
  have u1: "toUpperChar (CHR 0xE9) = [CHR 0xC9]" and u2: "toUpperChar (CHR 0xDF) = ''SS''"
    by code_simp+
  from t4 r1 have c1: "capitalize (CHR 0xE9 # ''lan'') = CHR 0xC9 # ''lan''"
    by (simp add: u1)
  from t4 r2 have c2: "capitalize (CHR 0xDF # ''en'') = ''SSen''"
    by (simp add: u2)
  have w: "extractProductName (CHR 0xE9 # ''lan vital'') = CHR 0xC9 # ''lan Vital''"
    by code_simp
  show ?thesis
    by (intro conjI h v t1 t2 t3 r1 r2 c1 c2 w)
qed

section \<open>The price\<close>

text \<open>
  C1: for every description and tag list, and every double below 1 that the random source
  may draw, \<open>generatePrice\<close> returns \<open>$n.00\<close> with \<open>n = max (base + p) 25\<close> for an integer
  \<open>p\<close> between -10 and 9, where \<open>base\<close> is the base price in the specification's wording
  (45 with \<open>hat\<close> in the lowercased description and 50 without, plus 20, 30, 25 and 15 for
  the four surcharge rules). The result matches \<open>/^\$\d+\.00$/\<close> and its number is at least 25.
\<close>

theorem generatePrice_spec:
  assumes "is_double rnd" and "double_val rnd < 1"
  shows "\<exists>p. - 10 \<le> p \<and> p \<le> 9 \<and>
           generatePrice rnd d ts
             = ''$'' @ toString_int (max (derivePrice_base_spec d ts + p) 25) @ ''.00'' \<and>
           matchesPriceFormat (generatePrice rnd d ts) \<and>
           int (priceValue (generatePrice rnd d ts)) = max (derivePrice_base_spec d ts + p) 25 \<and>
           25 \<le> priceValue (generatePrice rnd d ts)"
proof -
  define p where "p = Math_floor (double_mul rnd twenty) - 10"
  have range: "- 10 \<le> p" "p \<le> 9"
    using variation_range [OF assms] by (simp_all add: p_def)
  have code: "generatePrice rnd d ts = ''$'' @ toString_int (max (priceBase d ts + p) 25) @ ''.00''"
    by (simp add: generatePrice_def Let_def p_def)
  have big: "35 \<le> priceBase d ts + p"
    using priceBase_ge [of d ts] range by linarith
  have shape: "generatePrice rnd d ts = ''$'' @ digits (nat (priceBase d ts + p)) @ ''.00''"
    using generatePrice_eq [OF assms(1), of d ts] by (simp add: p_def)
  have fmt: "matchesPriceFormat (generatePrice rnd d ts)"
    unfolding shape by (rule matchesPriceFormat_price)
  have val: "priceValue (generatePrice rnd d ts) = nat (priceBase d ts + p)"
    unfolding shape by (rule priceValue_price)
  have val_int: "int (priceValue (generatePrice rnd d ts)) = max (priceBase d ts + p) 25"
    using big by (simp add: val max_def)
  have floor25: "25 \<le> priceValue (generatePrice rnd d ts)"
    using big by (simp add: val)
  show ?thesis
    using range code fmt val_int floor25 unfolding priceBase_spec by blast
qed

theorem generatePrice_spec_witness:
  "is_double example_seven_tenths \<and> double_val example_seven_tenths < 1 \<and>
   generatePrice example_seven_tenths ''A premium hat'' [''Luxury''] = ''$99.00'' \<and>
   is_double example_below_one \<and> double_val example_below_one < 1 \<and>
   generatePrice example_below_one ''A premium hat'' [''Luxury''] = ''$104.00'' \<and>
   (\<exists>p. - 10 \<le> p \<and> p \<le> 9 \<and>
      generatePrice example_below_one ''A premium hat'' [''Luxury'']
        = ''$'' @ toString_int (max (derivePrice_base_spec ''A premium hat'' [''Luxury''] + p) 25) @ ''.00'' \<and>
      matchesPriceFormat (generatePrice example_below_one ''A premium hat'' [''Luxury'']) \<and>
      int (priceValue (generatePrice example_below_one ''A premium hat'' [''Luxury'']))
        = max (derivePrice_base_spec ''A premium hat'' [''Luxury''] + p) 25 \<and>
      25 \<le> priceValue (generatePrice example_below_one ''A premium hat'' [''Luxury'']))"
proof -
  have a: "is_double example_below_one" and b: "double_val example_below_one < 1"
    by (simp_all add: is_double_def double_val_def example_below_one_def)
  have a7: "is_double example_seven_tenths" and b7: "double_val example_seven_tenths < 1"
    by (simp_all add: is_double_def double_val_def example_seven_tenths_def)
  have c: "generatePrice example_below_one ''A premium hat'' [''Luxury''] = ''$104.00''"
    by code_simp
  have c7: "generatePrice example_seven_tenths ''A premium hat'' [''Luxury''] = ''$99.00''"
    by code_simp
  note t = generatePrice_spec [OF a b, of "''A premium hat''" "[''Luxury'']"]
  show ?thesis
    by (intro conjI a7 b7 c7 a b c t)
qed

text \<open>
  C9: the number of the price is at least 35 for every description and tag list: the base
  is at least 45, the perturbation at least -10, and so the floor of 25 never changes the sum.
\<close>

theorem generatePrice_at_least_35:
  assumes "is_double rnd"
  shows "35 \<le> priceValue (generatePrice rnd d ts) \<and>
         matchesPriceFormat (generatePrice rnd d ts) \<and>
         45 \<le> priceBase d ts \<and>
         - 10 \<le> Math_floor (double_mul rnd twenty) - 10 \<and>
         max (priceBase d ts + (Math_floor (double_mul rnd twenty) - 10)) 25
           = priceBase d ts + (Math_floor (double_mul rnd twenty) - 10)"
proof -
  have v: "0 \<le> Math_floor (double_mul rnd twenty)" by (rule mul_twenty_nonneg [OF assms])
  have b: "45 \<le> priceBase d ts" by (rule priceBase_ge)
  have shape: "generatePrice rnd d ts
      = ''$'' @ digits (nat (priceBase d ts + (Math_floor (double_mul rnd twenty) - 10))) @ ''.00''"
    by (rule generatePrice_eq [OF assms])
  have "35 \<le> priceValue (generatePrice rnd d ts)"
    unfolding shape priceValue_price using v b by linarith
  moreover have "matchesPriceFormat (generatePrice rnd d ts)"
    unfolding shape by (rule matchesPriceFormat_price)
  moreover have "max (priceBase d ts + (Math_floor (double_mul rnd twenty) - 10)) 25
      = priceBase d ts + (Math_floor (double_mul rnd twenty) - 10)"
    using v b by linarith
  moreover have "- 10 \<le> Math_floor (double_mul rnd twenty) - 10"
    using v by linarith
  ultimately show ?thesis using b by blast
qed

theorem generatePrice_at_least_35_witness:
  "is_double example_zero \<and>
   generatePrice example_zero ''hat'' [] = ''$35.00'' \<and>
   35 \<le> priceValue (generatePrice example_zero ''hat'' []) \<and>
   matchesPriceFormat (generatePrice example_zero ''hat'' []) \<and>
   45 \<le> priceBase ''hat'' [] \<and>
   - 10 \<le> Math_floor (double_mul example_zero twenty) - 10 \<and>
   max (priceBase ''hat'' [] + (Math_floor (double_mul example_zero twenty) - 10)) 25
     = priceBase ''hat'' [] + (Math_floor (double_mul example_zero twenty) - 10)"
proof -
  have a: "is_double example_zero"
    by (simp add: is_double_def example_zero_def)
  have c: "generatePrice example_zero ''hat'' [] = ''$35.00''"
    by code_simp
  from generatePrice_at_least_35 [OF a, of "''hat''" "[]"] a c
  show ?thesis by blast
qed

text \<open>
  C7: for the description \<open>A classic straw wide-brim hat with leather trim.\<close> with the tags
  \<open>handmade\<close> and \<open>luxury\<close> the product name is \<open>Premium Straw Hat\<close>, the base price before the
  perturbation is 135, and the price has the form \<open>$n.00\<close> with \<open>n\<close> between 125 and 144.
\<close>

theorem straw_hat_scenario:
  assumes "is_double rnd" and "double_val rnd < 1"
  shows "extractProductName ''A classic straw wide-brim hat with leather trim.'' = ''Premium Straw Hat'' \<and>
         priceBase ''A classic straw wide-brim hat with leather trim.'' [''handmade'', ''luxury''] = 135 \<and>
         matchesPriceFormat
           (generatePrice rnd ''A classic straw wide-brim hat with leather trim.'' [''handmade'', ''luxury'']) \<and>
         125 \<le> priceValue
           (generatePrice rnd ''A classic straw wide-brim hat with leather trim.'' [''handmade'', ''luxury'']) \<and>
         priceValue
           (generatePrice rnd ''A classic straw wide-brim hat with leather trim.'' [''handmade'', ''luxury''])
           \<le> 144"
proof -
  let ?d = "''A classic straw wide-brim hat with leather trim.''"
  let ?ts = "[''handmade'', ''luxury'']"
  have name: "extractProductName ?d = ''Premium Straw Hat''"
    by code_simp
  have base: "priceBase ?d ?ts = 135"
    by code_simp
  have shape: "generatePrice rnd ?d ?ts
      = ''$'' @ digits (nat (135 + (Math_floor (double_mul rnd twenty) - 10))) @ ''.00''"
    using generatePrice_eq [OF assms(1), of ?d ?ts] unfolding base .
  have fmt: "matchesPriceFormat (generatePrice rnd ?d ?ts)"
    unfolding shape by (rule matchesPriceFormat_price)
  have lo: "125 \<le> priceValue (generatePrice rnd ?d ?ts)"
    unfolding shape priceValue_price using variation_range [OF assms] by linarith
  have hi: "priceValue (generatePrice rnd ?d ?ts) \<le> 144"
    unfolding shape priceValue_price using variation_range [OF assms] by linarith
  from name base fmt lo hi show ?thesis by (intro conjI)
qed

theorem straw_hat_scenario_witness:
  "is_double example_zero \<and> double_val example_zero < 1 \<and>
   generatePrice example_zero ''A classic straw wide-brim hat with leather trim.'' [''handmade'', ''luxury'']
     = ''$125.00'' \<and>
   is_double example_seven_tenths \<and> double_val example_seven_tenths < 1 \<and>
   generatePrice example_seven_tenths ''A classic straw wide-brim hat with leather trim.'' [''handmade'', ''luxury'']
     = ''$139.00'' \<and>
   is_double example_below_one \<and> double_val example_below_one < 1 \<and>
   generatePrice example_below_one ''A classic straw wide-brim hat with leather trim.'' [''handmade'', ''luxury'']
     = ''$144.00'' \<and>
   extractProductName ''A classic straw wide-brim hat with leather trim.'' = ''Premium Straw Hat'' \<and>
   priceBase ''A classic straw wide-brim hat with leather trim.'' [''handmade'', ''luxury''] = 135 \<and>
   matchesPriceFormat
     (generatePrice example_below_one ''A classic straw wide-brim hat with leather trim.'' [''handmade'', ''luxury'']) \<and>
   125 \<le> priceValue
     (generatePrice example_below_one ''A classic straw wide-brim hat with leather trim.'' [''handmade'', ''luxury'']) \<and>
   priceValue
     (generatePrice example_below_one ''A classic straw wide-brim hat with leather trim.'' [''handmade'', ''luxury''])
     \<le> 144"
proof -
  have a: "is_double example_below_one" and b: "double_val example_below_one < 1"
    by (simp_all add: is_double_def double_val_def example_below_one_def)
  have a7: "is_double example_seven_tenths" and b7: "double_val example_seven_tenths < 1"
    by (simp_all add: is_double_def double_val_def example_seven_tenths_def)
  have a0: "is_double example_zero" and b0: "double_val example_zero < 1"
    by (simp_all add: is_double_def double_val_def example_zero_def)
  have c: "generatePrice example_below_one ''A classic straw wide-brim hat with leather trim.'' [''handmade'', ''luxury'']
     = ''$144.00''"
    by code_simp
  have c7: "generatePrice example_seven_tenths ''A classic straw wide-brim hat with leather trim.'' [''handmade'', ''luxury'']
     = ''$139.00''"
    by code_simp
  have c0: "generatePrice example_zero ''A classic straw wide-brim hat with leather trim.'' [''handmade'', ''luxury'']
     = ''$125.00''"
    by code_simp
  note t = straw_hat_scenario [OF a b]
  note t1 = t [THEN conjunct1]
  note t2 = t [THEN conjunct2, THEN conjunct1]
  note t3 = t [THEN conjunct2, THEN conjunct2, THEN conjunct1]
  note t4 = t [THEN conjunct2, THEN conjunct2, THEN conjunct2, THEN conjunct1]
  note t5 = t [THEN conjunct2, THEN conjunct2, THEN conjunct2, THEN conjunct2]
  show ?thesis
    by (intro conjI a0 b0 c0 a7 b7 c7 a b c t1 t2 t3 t4 t5)
qed

section \<open>Facts about the store\<close>

lemma allowedTypes_iff:
  "arr_includes allowedTypes t \<longleftrightarrow>
     t \<in> {''image/jpeg'', ''image/jpg'', ''image/png'', ''image/gif'', ''image/bmp'', ''image/webp''}"
  by (simp add: arr_includes_def allowedTypes_def)

lemma try_missing:
  "ci = None \<or> mi = None \<Longrightarrow>
   generateProductCard_try env ci mi out
     = ([], Inl (Error ''Both clothing and model images are required''))"
  by (auto simp: generateProductCard_try_def split: option.splits)

lemma try_bad_clothing:
  "\<not> arr_includes allowedTypes (file_type c) \<Longrightarrow>
   generateProductCard_try env (Some c) (Some m) out
     = ([], Inl (Error ''Clothing image must be a valid image file (jpg, jpeg, png, gif, bmp, webp)''))"
  by (simp add: generateProductCard_try_def)

lemma try_bad_model:
  "arr_includes allowedTypes (file_type c) \<Longrightarrow> \<not> arr_includes allowedTypes (file_type m) \<Longrightarrow>
   generateProductCard_try env (Some c) (Some m) out
     = ([], Inl (Error ''Model image must be a valid image file (jpg, jpeg, png, gif, bmp, webp)''))"
  by (simp add: generateProductCard_try_def)

lemma try_valid:
  "arr_includes allowedTypes (file_type c) \<Longrightarrow> arr_includes allowedTypes (file_type m) \<Longrightarrow>
   generateProductCard_try env (Some c) (Some m) out
     = ([buildRequest c m out],
        (case env_fetch env (buildRequest c m out) of
           Inl e \<Rightarrow> Inl e
         | Inr response \<Rightarrow>
             if \<not> ok response then
               (case body_text response of
                  Inl e \<Rightarrow> Inl e
                | Inr errorText \<Rightarrow>
                    Inl (Error (''API call failed: '' @ digits (status response) @ '' ''
                                @ statusText response @ '' - '' @ errorText)))
             else (case body_json response of
                     Inl e \<Rightarrow> Inl e
                   | Inr apiResponse \<Rightarrow>
                       Inr (mapApiResponseToProductCard (env_now env) (env_random env) apiResponse))))"
  by (simp add: generateProductCard_try_def generateProductListing_def Let_def split: sum.splits)

lemma generateProductCard_eq:
  "generateProductCard env ci mi out s
     = (generateProductCard_settle (snd (generateProductCard_try env ci mi out))
          (generateProductCard_begin s),
        fst (generateProductCard_try env ci mi out))"
  by (simp add: generateProductCard_def Let_def split: prod.splits)

lemma settle_begin_Inl:
  "generateProductCard_settle (Inl e) (generateProductCard_begin s)
     = s\<lparr>isGenerating := False, error := Some (catchMessage e)\<rparr>"
  by (simp add: generateProductCard_settle_def generateProductCard_begin_def)

lemma settle_begin_Inr:
  "generateProductCard_settle (Inr newCard) (generateProductCard_begin s)
     = \<lparr>isGenerating = False, generatedCards = newCard # generatedCards s, error = None\<rparr>"
  by (simp add: generateProductCard_settle_def generateProductCard_begin_def)

lemma try_success_cases:
  assumes "generateProductCard_try env ci mi out = (reqs, Inr newCard)"
  shows "\<exists>c m response api. ci = Some c \<and> mi = Some m \<and>
           arr_includes allowedTypes (file_type c) \<and> arr_includes allowedTypes (file_type m) \<and>
           reqs = [buildRequest c m out] \<and>
           env_fetch env (buildRequest c m out) = Inr response \<and> ok response \<and>
           body_json response = Inr api \<and>
           newCard = mapApiResponseToProductCard (env_now env) (env_random env) api"
proof -
  from assms obtain c m where cm: "ci = Some c" "mi = Some m"
    by (cases ci; cases mi) (auto simp: try_missing)
  have vc: "arr_includes allowedTypes (file_type c)"
  proof (rule ccontr)
    assume "\<not> arr_includes allowedTypes (file_type c)"
    from try_bad_clothing [OF this, of env m out] assms cm show False by simp
  qed
  have vm: "arr_includes allowedTypes (file_type m)"
  proof (rule ccontr)
    assume "\<not> arr_includes allowedTypes (file_type m)"
    from try_bad_model [OF vc this, of env out] assms cm show False by simp
  qed
  from assms show ?thesis
    unfolding cm try_valid [OF vc vm]
    by (auto simp: cm vc vm split: sum.splits if_splits)
qed



lemma example_types_valid:
  "arr_includes allowedTypes (file_type example_png)"
  "arr_includes allowedTypes (file_type example_jpeg)"
  by (simp_all add: allowedTypes_iff example_png_def example_jpeg_def)

section \<open>Properties of the generation store\<close>

text \<open>
  C2: when both images are given and the declared type of either is none of \<open>image/jpeg\<close>,
  \<open>image/jpg\<close>, \<open>image/png\<close>, \<open>image/gif\<close>, \<open>image/bmp\<close>, \<open>image/webp\<close>, then
  \<open>generateProductCard\<close> sends no request, stores an error that names the image that failed (the
  clothing image when its type is refused, the model image otherwise), keeps the cards and ends
  with \<open>isGenerating\<close> false.
\<close>

theorem invalid_type_no_network:
  assumes "file_type c \<notin> {''image/jpeg'', ''image/jpg'', ''image/png'', ''image/gif'', ''image/bmp'', ''image/webp''}
         \<or> file_type m \<notin> {''image/jpeg'', ''image/jpg'', ''image/png'', ''image/gif'', ''image/bmp'', ''image/webp''}"
  shows "snd (generateProductCard env (Some c) (Some m) out s) = [] \<and>
         fst (generateProductCard env (Some c) (Some m) out s)
           = s\<lparr>isGenerating := False,
                error := Some (if file_type c \<notin> {''image/jpeg'', ''image/jpg'', ''image/png'',
                                                   ''image/gif'', ''image/bmp'', ''image/webp''}
                               then ''Clothing image must be a valid image file (jpg, jpeg, png, gif, bmp, webp)''
                               else ''Model image must be a valid image file (jpg, jpeg, png, gif, bmp, webp)'')\<rparr> \<and>
         generatedCards (fst (generateProductCard env (Some c) (Some m) out s)) = generatedCards s \<and>
         isGenerating (fst (generateProductCard env (Some c) (Some m) out s)) = False"
proof (cases "arr_includes allowedTypes (file_type c)")
  case False
  then have bad: "file_type c \<notin> {''image/jpeg'', ''image/jpg'', ''image/png'', ''image/gif'', ''image/bmp'', ''image/webp''}"
    by (simp only: allowedTypes_iff not_False_eq_True)
  show ?thesis
    unfolding generateProductCard_eq try_bad_clothing [OF False] if_P [OF bad]
    by (simp add: settle_begin_Inl catchMessage_def)
next
  case True
  then have good: "\<not> file_type c \<notin> {''image/jpeg'', ''image/jpg'', ''image/png'', ''image/gif'', ''image/bmp'', ''image/webp''}"
    by (simp only: allowedTypes_iff not_not)
  with assms have "\<not> arr_includes allowedTypes (file_type m)"
    by (simp only: allowedTypes_iff) blast
  note tr = try_bad_model [OF True this]
  show ?thesis
    unfolding generateProductCard_eq tr if_not_P [OF good]
    by (simp add: settle_begin_Inl catchMessage_def)
qed

theorem invalid_type_no_network_witness:
  "file_type example_pdf \<notin> {''image/jpeg'', ''image/jpg'', ''image/png'', ''image/gif'', ''image/bmp'', ''image/webp''} \<and>
   generateProductCard (example_env example_response_200) (Some example_pdf) (Some example_png) None example_store
     = (\<lparr>isGenerating = False, generatedCards = [example_card],
         error = Some ''Clothing image must be a valid image file (jpg, jpeg, png, gif, bmp, webp)''\<rparr>, []) \<and>
   generateProductCard (example_env example_response_200) (Some example_png) (Some example_pdf) None example_store
     = (\<lparr>isGenerating = False, generatedCards = [example_card],
         error = Some ''Model image must be a valid image file (jpg, jpeg, png, gif, bmp, webp)''\<rparr>, [])"
proof -
  have bad: "file_type example_pdf \<notin> {''image/jpeg'', ''image/jpg'', ''image/png'', ''image/gif'', ''image/bmp'', ''image/webp''}"
    by (simp add: example_pdf_def)
  have good: "file_type example_png \<in> {''image/jpeg'', ''image/jpg'', ''image/png'', ''image/gif'', ''image/bmp'', ''image/webp''}"
    by (simp add: example_png_def)
  have r1: "generateProductCard (example_env example_response_200) (Some example_pdf) (Some example_png) None example_store
     = (\<lparr>isGenerating = False, generatedCards = [example_card],
         error = Some ''Clothing image must be a valid image file (jpg, jpeg, png, gif, bmp, webp)''\<rparr>, [])"
    using invalid_type_no_network [where c = example_pdf and m = example_png
        and env = "example_env example_response_200" and out = None and s = example_store,
        OF disjI1 [OF bad]] bad
    by (simp add: prod_eq_iff example_store_def)
  have r2: "generateProductCard (example_env example_response_200) (Some example_png) (Some example_pdf) None example_store
     = (\<lparr>isGenerating = False, generatedCards = [example_card],
         error = Some ''Model image must be a valid image file (jpg, jpeg, png, gif, bmp, webp)''\<rparr>, [])"
    using invalid_type_no_network [where c = example_png and m = example_pdf
        and env = "example_env example_response_200" and out = None and s = example_store,
        OF disjI2 [OF bad]] good
    by (simp add: prod_eq_iff example_store_def)
  from bad r1 r2 show ?thesis by (intro conjI)
qed



text \<open>
  C4: when the attempt yields a card, the final list of cards is that card followed by the
  earlier list, unchanged and in its order; the error is cleared and \<open>isGenerating\<close> is false.
  The card is the one mapped from the decoded body of a response with a success status.
\<close>

theorem success_prepends:
  assumes "generateProductCard_try env ci mi out = (reqs, Inr newCard)"
  shows "generateProductCard env ci mi out s
           = (\<lparr>isGenerating = False, generatedCards = newCard # generatedCards s, error = None\<rparr>, reqs) \<and>
         generatedCards (fst (generateProductCard env ci mi out s)) ! 0 = newCard \<and>
         drop 1 (generatedCards (fst (generateProductCard env ci mi out s))) = generatedCards s \<and>
         error (fst (generateProductCard env ci mi out s)) = None \<and>
         isGenerating (fst (generateProductCard env ci mi out s)) = False \<and>
         (\<exists>c m response api. ci = Some c \<and> mi = Some m \<and>
            env_fetch env (buildRequest c m out) = Inr response \<and> ok response \<and>
            body_json response = Inr api \<and>
            newCard = mapApiResponseToProductCard (env_now env) (env_random env) api)"
proof -
  have st: "generateProductCard env ci mi out s
           = (\<lparr>isGenerating = False, generatedCards = newCard # generatedCards s, error = None\<rparr>, reqs)"
    by (simp add: generateProductCard_eq assms settle_begin_Inr)
  have ex: "\<exists>c m response api. ci = Some c \<and> mi = Some m \<and>
            env_fetch env (buildRequest c m out) = Inr response \<and> ok response \<and>
            body_json response = Inr api \<and>
            newCard = mapApiResponseToProductCard (env_now env) (env_random env) api"
    using try_success_cases [OF assms] by blast
  show ?thesis
    unfolding st using ex by simp
qed

theorem success_prepends_witness:
  "generateProductCard_try (example_env example_response_200) (Some example_png) (Some example_jpeg) None
     = ([buildRequest example_png example_jpeg None],
        Inr (mapApiResponseToProductCard 1700000000000 example_half example_api)) \<and>
   generateProductCard (example_env example_response_200) (Some example_png) (Some example_jpeg) None
       example_store
     = (\<lparr>isGenerating = False,
         generatedCards = [mapApiResponseToProductCard 1700000000000 example_half example_api, example_card],
         error = None\<rparr>,
        [buildRequest example_png example_jpeg None]) \<and>
   card_productName (mapApiResponseToProductCard 1700000000000 example_half example_api) = ''Premium Straw Hat'' \<and>
   card_price (mapApiResponseToProductCard 1700000000000 example_half example_api) = ''$135.00'' \<and>
   card_id (mapApiResponseToProductCard 1700000000000 example_half example_api) = ''1700000000000''"
proof -
  let ?env = "example_env example_response_200"
  have ok200: "ok example_response_200" "body_json example_response_200 = Inr example_api"
    by (simp_all add: ok_def example_response_200_def)
  have h: "generateProductCard_try ?env (Some example_png) (Some example_jpeg) None
     = ([buildRequest example_png example_jpeg None],
        Inr (mapApiResponseToProductCard 1700000000000 example_half example_api))"
    by (simp add: try_valid [OF example_types_valid] example_env_def ok200)
  from success_prepends [OF h, of example_store]
  have r: "generateProductCard ?env (Some example_png) (Some example_jpeg) None example_store
     = (\<lparr>isGenerating = False,
         generatedCards = [mapApiResponseToProductCard 1700000000000 example_half example_api, example_card],
         error = None\<rparr>,
        [buildRequest example_png example_jpeg None])"
    by (simp add: example_store_def)
  have n0: "extractProductName ''A classic straw wide-brim hat with leather trim.'' = ''Premium Straw Hat''"
    by code_simp
  have p0: "generatePrice example_half ''A classic straw wide-brim hat with leather trim.'' [''handmade'', ''luxury'']
      = ''$135.00''"
    by code_simp
  have i0: "digits 1700000000000 = ''1700000000000''"
    by (simp add: digits.simps digit_char_def)
  have n: "card_productName (mapApiResponseToProductCard 1700000000000 example_half example_api) = ''Premium Straw Hat''"
    by (simp add: mapApiResponseToProductCard_def Let_def example_api_def n0)
  have p: "card_price (mapApiResponseToProductCard 1700000000000 example_half example_api) = ''$135.00''"
    by (simp add: mapApiResponseToProductCard_def Let_def example_api_def p0)
  have i: "card_id (mapApiResponseToProductCard 1700000000000 example_half example_api) = ''1700000000000''"
    by (simp add: mapApiResponseToProductCard_def Let_def example_api_def i0)
  from h r n p i show ?thesis by (intro conjI)
qed

text \<open>
  C10: for two images of allowed types, the empty string as output name gives the same
  result and the same request as no output name: the request has the two image parts and no
  \<open>output_filename\<close> part. A name that is not empty adds that part.
\<close>

theorem empty_output_name_like_omitted:
  assumes "arr_includes allowedTypes (file_type c)" and "arr_includes allowedTypes (file_type m)"
  shows "generateProductCard env (Some c) (Some m) (Some []) s
           = generateProductCard env (Some c) (Some m) None s \<and>
         snd (generateProductCard env (Some c) (Some m) (Some []) s)
           = [\<lparr>req_url = ''http://localhost:8000/generate-product-listing'', req_method = ''POST'',
               req_body = [(''clothing_image'', Blob c), (''model_image'', Blob m)]\<rparr>] \<and>
         snd (generateProductCard env (Some c) (Some m) None s)
           = [\<lparr>req_url = ''http://localhost:8000/generate-product-listing'', req_method = ''POST'',
               req_body = [(''clothing_image'', Blob c), (''model_image'', Blob m)]\<rparr>] \<and>
         (name \<noteq> [] \<longrightarrow>
            snd (generateProductCard env (Some c) (Some m) (Some name) s)
              = [\<lparr>req_url = ''http://localhost:8000/generate-product-listing'', req_method = ''POST'',
                  req_body = [(''clothing_image'', Blob c), (''model_image'', Blob m),
                              (''output_filename'', Text name)]\<rparr>])"
proof -
  have same: "buildRequest c m (Some []) = buildRequest c m None"
    by (simp add: buildRequest_def buildFormData_def)
  have none: "buildRequest c m None
      = \<lparr>req_url = ''http://localhost:8000/generate-product-listing'', req_method = ''POST'',
         req_body = [(''clothing_image'', Blob c), (''model_image'', Blob m)]\<rparr>"
    by (simp add: buildRequest_def buildFormData_def)
  have named: "name \<noteq> [] \<Longrightarrow> buildRequest c m (Some name)
      = \<lparr>req_url = ''http://localhost:8000/generate-product-listing'', req_method = ''POST'',
         req_body = [(''clothing_image'', Blob c), (''model_image'', Blob m),
                     (''output_filename'', Text name)]\<rparr>"
    by (simp add: buildRequest_def buildFormData_def)
  have tr: "generateProductCard_try env (Some c) (Some m) (Some [])
      = generateProductCard_try env (Some c) (Some m) None"
    unfolding try_valid [OF assms] same ..
  have a: "generateProductCard env (Some c) (Some m) (Some []) s
           = generateProductCard env (Some c) (Some m) None s"
    unfolding generateProductCard_eq tr ..
  have b: "snd (generateProductCard env (Some c) (Some m) None s) = [buildRequest c m None]"
    by (simp add: generateProductCard_eq try_valid [OF assms])
  have d: "snd (generateProductCard env (Some c) (Some m) (Some name) s) = [buildRequest c m (Some name)]"
    by (simp add: generateProductCard_eq try_valid [OF assms])
  show ?thesis
    unfolding a b d none using named by simp
qed

theorem empty_output_name_like_omitted_witness:
  "arr_includes allowedTypes (file_type example_png) \<and>
   arr_includes allowedTypes (file_type example_jpeg) \<and>
   generateProductCard (example_env example_response_200) (Some example_png) (Some example_jpeg)
       (Some []) example_store
     = generateProductCard (example_env example_response_200) (Some example_png) (Some example_jpeg)
         None example_store \<and>
   snd (generateProductCard (example_env example_response_200) (Some example_png) (Some example_jpeg)
          (Some []) example_store)
     = [\<lparr>req_url = ''http://localhost:8000/generate-product-listing'', req_method = ''POST'',
         req_body = [(''clothing_image'', Blob example_png), (''model_image'', Blob example_jpeg)]\<rparr>] \<and>
   snd (generateProductCard (example_env example_response_200) (Some example_png) (Some example_jpeg)
          (Some ''front.png'') example_store)
     = [\<lparr>req_url = ''http://localhost:8000/generate-product-listing'', req_method = ''POST'',
         req_body = [(''clothing_image'', Blob example_png), (''model_image'', Blob example_jpeg),
                     (''output_filename'', Text ''front.png'')]\<rparr>]"
proof -
  note t = empty_output_name_like_omitted [OF example_types_valid,
      where env = "example_env example_response_200" and s = example_store and name = "''front.png''"]
  have ne: "''front.png'' \<noteq> []" by simp
  from t ne example_types_valid show ?thesis by simp
qed

text \<open>
  C8: in every state of the store \<open>clearCards\<close> empties the list of cards, clears the error and
  leaves \<open>isGenerating\<close> as it is.
\<close>

theorem clearCards_effect:
  "generatedCards (clearCards s) = [] \<and> error (clearCards s) = None \<and>
   isGenerating (clearCards s) = isGenerating s"
  by (simp add: clearCards_def)

end
